theory Spec2Isabelle
  imports Main "HOL-Library.Word"
begin

section \<open>The onion buffer (package onion_buffer)\<close>

subsection \<open>Values\<close>

type_synonym byte = "8 word"

text \<open>
  A \<open>time.Time\<close> is an instant; it is counted here in nanoseconds from Go's zero
  \<open>time.Time\<close> (1 January of year 1, UTC), so the zero value of the type is \<open>0\<close>
  and \<open>t.After(u)\<close> is \<open>u < t\<close>.
\<close>

type_synonym time = int

definition zeroTime :: time where
  "zeroTime = 0"

definition After :: "time \<Rightarrow> time \<Rightarrow> bool" where
  "After t u = (u < t)"

datatype error = EOF | Errno nat | Err string

text \<open>
  What a call does besides changing the state: it returns a value, it panics in its own
  goroutine, it never returns (it waits for a mutex or a wait group that nobody releases),
  or the whole process ends under it (\<open>Crashed\<close>: a panic in another goroutine,
  which nothing recovers).
\<close>

datatype 'a result = Returned 'a | Panicked | Blocked | Crashed

text \<open>
  A \<open>[]byte\<close>. \<open>arr\<close> is the backing array the slice header points to (its length is
  the capacity), \<open>len\<close> the length of the header, and \<open>mlocked\<close> the kernel's
  record of whether the pages under the slice are locked in RAM. Two headers over the same
  array are modelled by passing the array from one to the other.
\<close>

record slice =
  arr :: "byte list"
  len :: nat
  mlocked :: bool

definition nil_slice :: slice where
  "nil_slice = \<lparr>arr = [], len = 0, mlocked = False\<rparr>"

definition content :: "slice \<Rightarrow> byte list" where
  "content s = take (len s) (arr s)"

text \<open>
  \<open>syscall.Mlock(b)\<close> and \<open>syscall.Munlock(b)\<close>: the kernel's answer is the
  first argument. Locking zero bytes locks no page.
\<close>

definition Mlock :: "error option \<Rightarrow> slice \<Rightarrow> error option \<times> slice" where
  "Mlock answer s =
     (case answer of
        Some e \<Rightarrow> (Some e, s)
      | None \<Rightarrow> (None, if len s = 0 then s else s\<lparr>mlocked := True\<rparr>))"

definition Munlock :: "error option \<Rightarrow> slice \<Rightarrow> error option \<times> slice" where
  "Munlock answer s =
     (case answer of
        Some e \<Rightarrow> (Some e, s)
      | None \<Rightarrow> (None, s\<lparr>mlocked := False\<rparr>))"

subsection \<open>The struct\<close>

text \<open>
  \<open>Mutex\<close> is the embedded \<open>sync.Mutex\<close>: \<open>True\<close> while it is held.
  \<open>Downloads\<close> and \<open>DownloadLimit\<close> are Go \<open>int\<close>s, 64 bits wide.
\<close>

record OnionBuffer =
  Mutex :: bool
  Name :: string
  Bytes :: slice
  Checksum :: string
  Encrypted :: bool
  Downloads :: int
  DownloadLimit :: int
  DownloadsLimited :: bool
  CreatedAt :: time
  ExpiresAt :: time

text \<open>The literal \<open>&OnionBuffer{Name: name}\<close>: every other field has its zero value.\<close>

definition new_OnionBuffer :: "string \<Rightarrow> OnionBuffer" where
  "new_OnionBuffer name =
     \<lparr>Mutex = False, Name = name, Bytes = nil_slice, Checksum = [], Encrypted = False,
      Downloads = 0, DownloadLimit = 0, DownloadsLimited = False,
      CreatedAt = zeroTime, ExpiresAt = zeroTime\<rparr>"

subsection \<open>IsExpired\<close>

text \<open>\<open>time.Now()\<close> is the first argument.\<close>

definition IsExpired :: "time \<Rightarrow> OnionBuffer \<Rightarrow> bool" where
  "IsExpired now b = (if After (ExpiresAt b) now then False else True)"

subsection \<open>Destroy\<close>

text \<open>
  Everything \<open>Destroy\<close> asks of the operating system and of \<open>archive/zip\<close>:
  \<^item> \<open>mlock_chunk\<close>: the answer to \<open>syscall.Mlock(chunk)\<close>;
  \<^item> \<open>zip_create_ok\<close>: whether \<open>zWriter.Create\<close> handed back a writer (its error
    is dropped by the code; without a writer \<open>bufFile\<close> is a nil interface);
  \<^item> \<open>zip_emit k\<close>: the bytes that the zip writer passes down to the
    \<open>bytes.Buffer\<close> under it during its \<open>k\<close>-th call, where call \<open>0\<close> is
    \<open>Create\<close> and call \<open>k > 0\<close> is the \<open>k\<close>-th \<open>bufFile.Write\<close>
    (the header, the deflate stream and the 4096-byte \<open>bufio\<close> layer decide them);
  \<^item> \<open>zip_err k\<close>: the error of the \<open>k\<close>-th \<open>bufFile.Write\<close>;
  \<^item> \<open>munlock_bytes\<close>: the answer to \<open>syscall.Munlock(of.Bytes)\<close>.
\<close>

record destroy_env =
  mlock_chunk :: "error option"
  zip_create_ok :: bool
  zip_emit :: "nat \<Rightarrow> byte list"
  zip_err :: "nat \<Rightarrow> error option"
  munlock_bytes :: "error option"

text \<open>
  \<open>bytes.NewBuffer(of.Bytes)\<close> takes the slice itself as its \<open>buf\<close>, so the
  buffer starts out over the array of \<open>of.Bytes\<close>: \<open>Aliased l\<close> is a buffer whose
  \<open>buf\<close> is the first \<open>l\<close> cells of that array. Once a write does not fit the
  capacity, \<open>grow\<close> copies \<open>buf\<close> into an array of its own: \<open>Own xs\<close>.
\<close>

datatype Buffer = Aliased nat | Own "byte list"

text \<open>
  \<open>Buffer.Write(p)\<close>, with the shared array passed along:
  \<open>tryGrowByReslice\<close> succeeds when \<open>len(p) <= cap(buf) - len(buf)\<close> and then
  \<open>copy(buf[m:], p)\<close> lands in the shared array from index \<open>m = len(buf)\<close> on.
\<close>

fun Buffer_Write :: "byte list \<Rightarrow> byte list \<times> Buffer \<Rightarrow> byte list \<times> Buffer" where
  "Buffer_Write p (a, Aliased l) =
     (if length p \<le> length a - l
      then (take l a @ p @ drop (l + length p) a, Aliased (l + length p))
      else (a, Own (take l a @ p)))"
| "Buffer_Write p (a, Own xs) = (a, Own (xs @ p))"

text \<open>
  \<open>bufio.NewReader(bytes.NewReader(of.Bytes))\<close> read one byte at a time: as many
  one-byte reads as the slice is long, then \<open>io.EOF\<close>.
\<close>

datatype read = ReadOk | ReadErr error

definition bytes_reader :: "slice \<Rightarrow> read list" where
  "bytes_reader s = replicate (len s) ReadOk @ [ReadErr EOF]"

text \<open>
  The \<open>for\<close> loop of \<open>Destroy\<close>, over the answers of the reader still to come.
  It is left by \<open>break\<close> with the reader's error, by \<open>return err\<close> when a write
  fails, or by the nil dereference of \<open>bufFile.Write\<close> when \<open>Create\<close> gave no
  writer. \<open>k\<close> numbers the write.
\<close>

datatype loop_exit = Break error | Return error | NilDeref

fun wipe_loop ::
  "destroy_env \<Rightarrow> read list \<Rightarrow> nat \<Rightarrow> byte list \<times> Buffer \<Rightarrow> loop_exit \<times> byte list \<times> Buffer"
where
  "wipe_loop env [] k st = (Break EOF, st)"
| "wipe_loop env (ReadErr e # rs) k st = (Break e, st)"
| "wipe_loop env (ReadOk # rs) k st =
     (if \<not> zip_create_ok env then (NilDeref, st)
      else
        let st' = Buffer_Write (zip_emit env k) st in
        (case zip_err env k of
           Some e \<Rightarrow> (Return e, st')
         | None \<Rightarrow> wipe_loop env rs (Suc k) st'))"

text \<open>
  \<open>of.Lock()\<close> gives the mutex to the caller when it is free; on a held mutex the
  caller waits until somebody unlocks it (\<open>None\<close>). \<open>of.Unlock()\<close> frees it.
\<close>

definition Lock :: "OnionBuffer \<Rightarrow> OnionBuffer option" where
  "Lock b = (if Mutex b then None else Some (b\<lparr>Mutex := True\<rparr>))"

definition Unlock :: "OnionBuffer \<Rightarrow> OnionBuffer" where
  "Unlock b = b\<lparr>Mutex := False\<rparr>"

text \<open>
  The body of \<open>Destroy\<close>, with the answers of its reader as the argument
  \<open>reader\<close>. The only \<open>of.Unlock()\<close> is the one before
  \<open>return nil\<close>; a caller that waits for the mutex waits for good, since the call
  that holds it has returned.
\<close>

definition Destroy_on ::
  "destroy_env \<Rightarrow> read list \<Rightarrow> OnionBuffer \<Rightarrow> error option result \<times> OnionBuffer"
where
  "Destroy_on env reader b =
     (case Lock b of
        None \<Rightarrow> (Blocked, b)
      | Some b1 \<Rightarrow>
         (let buffer = Aliased (len (Bytes b1)) in
          case mlock_chunk env of
            Some e \<Rightarrow> (Returned (Some e), b1)
          | None \<Rightarrow>
             (let st0 = (if zip_create_ok env
                         then Buffer_Write (zip_emit env 0) (arr (Bytes b1), buffer)
                         else (arr (Bytes b1), buffer));
                  (exit, a, buffer') = wipe_loop env reader 1 st0;
                  b2 = b1\<lparr>Bytes := (Bytes b1)\<lparr>arr := a\<rparr>\<rparr>
              in
              case exit of
                NilDeref \<Rightarrow> (Panicked, b2)
              | Return e \<Rightarrow> (Returned (Some e), b2)
              | Break e \<Rightarrow>
                 (if e \<noteq> EOF then (Returned (Some e), b2)
                  else
                    (let (r, s) = Munlock (munlock_bytes env) (Bytes b2) in
                     (case r of
                        Some e' \<Rightarrow> (Returned (Some e'), b2\<lparr>Bytes := s\<rparr>)
                      | None \<Rightarrow> (Returned None, Unlock (b2\<lparr>Bytes := s\<rparr>))))))))"

text \<open>\<open>Destroy\<close>: its reader is the one over \<open>of.Bytes\<close>.\<close>

definition Destroy :: "destroy_env \<Rightarrow> OnionBuffer \<Rightarrow> error option result \<times> OnionBuffer" where
  "Destroy env b = Destroy_on env (bytes_reader (Bytes b)) b"

section \<open>The service (package main)\<close>

subsection \<open>Requests, responses, memory\<close>

text \<open>
  What a handler reads of an \<open>http.Request\<close>: \<open>Method\<close>, \<open>URL.Path\<close>, the
  \<open>filename\<close> header (which \<open>router\<close> sets), \<open>FormValue\<close> (the empty string
  for a missing key) and the uploaded \<open>files\<close>, each a name with its bytes.
\<close>

type_synonym FileHeader = "string \<times> byte list"

record request =
  Method :: string
  path :: string
  filename :: string
  form :: "string \<Rightarrow> string"
  files :: "FileHeader list"

text \<open>
  What a handler does to its \<open>http.ResponseWriter\<close>, in order:
  \<open>w.Header().Set\<close>, \<open>w.Write\<close> of bytes, \<open>w.Write\<close> of a formatted text,
  the output of a template executed on a token, and \<open>http.Error\<close> with its message
  and status code. A handler that does nothing leaves the empty list, which
  \<open>net/http\<close> sends as an empty reply with status 200.
\<close>

datatype wevent =
    SetHeader string string
  | Write "byte list"
  | WriteString string
  | Execute string string
  | HttpError string nat

text \<open>
  The \<open>onionbox\<close> struct (its logger left out) together with the memory its pointers
  point into: \<open>heap\<close> holds the \<open>OnionBuffer\<close> objects by address and
  \<open>fresh\<close> is the next unused address. \<open>store\<close> is \<open>ob.store\<close>: nil, or
  the store.

  Modelled from the spec: the type \<open>OnionStore\<close> is not among the sources. The spec has its
  entries as a mapping from name to buffer with unique keys; the code passes
  \<open>*OnionBuffer\<close>, so the mapping is from names to addresses.
\<close>

type_synonym OnionStore = "string \<rightharpoonup> nat"

record onionbox =
  version :: string
  port :: int
  debug :: bool
  store :: "OnionStore option"
  maxFormMemory :: int
  torVersion3 :: bool
  onionURL :: string
  chunkSize :: int
  heap :: "nat \<Rightarrow> OnionBuffer"
  fresh :: nat

text \<open>
  What the handlers ask of the world outside this repository's sources, besides
  \<open>sys\<close> for the one \<open>Destroy\<close> a request can reach:
  \<^item> \<open>now\<close>: \<open>time.Now()\<close>;
  \<^item> \<open>csrf\<close>: \<open>createCSRF()\<close>; \<open>template_parse\<close>, \<open>template_execute\<close>: the
    errors of \<open>template.Parse\<close> and \<open>t.Execute\<close>;
  \<^item> \<open>digest\<close>: the hash behind \<open>GetChecksum\<close> and \<open>ValidateChecksum\<close>, and
    \<open>checksum_err\<close> the error these return;
  \<^item> \<open>encrypt\<close>, \<open>decrypt\<close>: \<open>onion_buffer.Encrypt\<close> and
    \<open>onion_buffer.Decrypt\<close> (not among the sources); \<open>encrypt\<close> returns the slice it
    allocated;
  \<^item> \<open>mlock_bytes\<close>: the answer to the handler's own \<open>syscall.Mlock\<close>, which the
    code only logs;
  \<^item> \<open>client_write\<close>: the error of the final \<open>w.Write\<close>;
  \<^item> \<open>parse_form\<close>: the error of \<open>r.ParseMultipartForm\<close>;
  \<^item> \<open>zip_files\<close>: what the worker goroutine and \<open>zWriter.Close()\<close> leave as
    \<open>zipBuffer.Bytes()\<close> for the queued files, or the error the worker returned;
  \<^item> \<open>head_start\<close>: how many of its writes to the client the upload handler gets
    done, after \<open>wg.Wait()\<close>, before the worker goroutine's panic ends the process
    (the scheduler decides);
  \<^item> \<open>silly_name\<close>: \<open>strings.ToLower(randomdata.SillyName())\<close>;
  \<^item> \<open>atoi\<close>: \<open>strconv.Atoi\<close>; \<open>parse_duration\<close>: the parsing of a duration
    inside \<open>SetExpiration\<close>.
\<close>

record env =
  sys :: destroy_env
  now :: time
  csrf :: "error + string"
  template_parse :: "error option"
  template_execute :: "error option"
  digest :: "byte list \<Rightarrow> string"
  checksum_err :: "error option"
  encrypt :: "byte list \<Rightarrow> string \<Rightarrow> error + slice"
  decrypt :: "byte list \<Rightarrow> string \<Rightarrow> error + byte list"
  mlock_bytes :: "error option"
  client_write :: "error option"
  parse_form :: "error option"
  zip_files :: "FileHeader list \<Rightarrow> error + slice"
  head_start :: nat
  silly_name :: string
  atoi :: "string \<Rightarrow> error + int"
  parse_duration :: "string \<Rightarrow> error + int"

type_synonym outcome = "unit result \<times> wevent list \<times> onionbox"

subsection \<open>Methods of the buffer and the store whose source is missing\<close>

text \<open>
  Modelled from the spec: \<open>GetChecksum\<close> and \<open>ValidateChecksum\<close> are not among
  the sources. The spec: \<open>compute(bytes) -> digest\<close>, \<open>verify(bytes, digest) -> bool\<close>,
  the digest computed over the buffer's content and, at verification, recomputed over
  the current content and compared with the stored one; the component has no state.
  Their Go signatures, as the callers use them, return an error as well.
\<close>

definition GetChecksum :: "env \<Rightarrow> OnionBuffer \<Rightarrow> error + string" where
  "GetChecksum env b =
     (case checksum_err env of
        Some e \<Rightarrow> Inl e
      | None \<Rightarrow> Inr (digest env (content (Bytes b))))"

definition ValidateChecksum :: "env \<Rightarrow> OnionBuffer \<Rightarrow> error + bool" where
  "ValidateChecksum env b =
     (case checksum_err env of
        Some e \<Rightarrow> Inl e
      | None \<Rightarrow> Inr (digest env (content (Bytes b)) = Checksum b))"

text \<open>
  Modelled from the spec: \<open>SetExpiration\<close> is not among the sources. The spec has the upload
  supply an optional expiration duration and the buffer hold \<open>expiresAt\<close>: the
  duration is parsed and \<open>ExpiresAt\<close> becomes the current time plus it.
\<close>

definition SetExpiration :: "env \<Rightarrow> string \<Rightarrow> OnionBuffer \<Rightarrow> error + OnionBuffer" where
  "SetExpiration env expiration b =
     (case parse_duration env expiration of
        Inl e \<Rightarrow> Inl e
      | Inr d \<Rightarrow> Inr (b\<lparr>ExpiresAt := now env + d\<rparr>))"

text \<open>
  Modelled from the spec: the methods of \<open>OnionStore\<close> are not among the sources. The spec:
  \<open>exists(name) -> bool\<close>; \<open>get(name)\<close> is a read-only lookup (the Go method
  returns the pointer alone, so nil when the name is absent); \<open>add(buffer)\<close> rejects
  with \<open>NameCollision\<close> if a live entry already uses the name and otherwise inserts;
  \<open>destroy(buffer)\<close> calls \<open>buffer.destroy()\<close> and then removes the buffer from
  the map, an error of \<open>buffer.destroy()\<close> being surfaced and the destruction not
  taken as done. The store-wide lock these hold is released when they return and is not
  modelled.
\<close>

definition store_Exists :: "OnionStore \<Rightarrow> string \<Rightarrow> bool" where
  "store_Exists s name = (s name \<noteq> None)"

definition store_Get :: "OnionStore \<Rightarrow> string \<Rightarrow> nat option" where
  "store_Get s name = s name"

definition store_Add :: "nat \<Rightarrow> onionbox \<Rightarrow> OnionStore \<Rightarrow> error option \<times> OnionStore" where
  "store_Add p ob s =
     (if s (Name (heap ob p)) \<noteq> None then (Some (Err ''NameCollision''), s)
      else (None, s(Name (heap ob p) \<mapsto> p)))"

definition store_Destroy ::
  "destroy_env \<Rightarrow> nat \<Rightarrow> onionbox \<Rightarrow> OnionStore \<Rightarrow> error option result \<times> onionbox"
where
  "store_Destroy e p ob s =
     (let (r, b') = Destroy e (heap ob p);
          ob' = ob\<lparr>heap := (heap ob)(p := b')\<rparr>
      in
      case r of
        Returned None \<Rightarrow> (r, ob'\<lparr>store := Some (s(Name b' := None))\<rparr>)
      | _ \<Rightarrow> (r, ob'))"

subsection \<open>download\<close>

text \<open>\<open>oBuffer.Downloads++\<close> on a 64-bit \<open>int\<close>.\<close>

definition incr :: "int \<Rightarrow> int" where
  "incr d = (if d = 9223372036854775807 then - 9223372036854775808 else d + 1)"

text \<open>
  The page with the form: \<open>createCSRF\<close>, \<open>template.New(name).Parse\<close>,
  \<open>t.Execute(w, csrf)\<close>, each answered with the same \<open>http.Error\<close> when it fails.
\<close>

definition page :: "env \<Rightarrow> string \<Rightarrow> wevent list" where
  "page env name =
     (case csrf env of
        Inl e \<Rightarrow> [HttpError ''Error displaying web page, please try refreshing.'' 500]
      | Inr token \<Rightarrow>
         (case template_parse env of
            Some e \<Rightarrow> [HttpError ''Error displaying web page, please try refreshing.'' 500]
          | None \<Rightarrow>
             (case template_execute env of
                Some e \<Rightarrow> [HttpError ''Error displaying web page, please try refreshing.'' 500]
              | None \<Rightarrow> [Execute name token])))"

text \<open>
  The headers and the \<open>w.Write\<close> that end a download, with the \<open>http.Error\<close> that
  follows a failed write.
\<close>

definition send_zip :: "env \<Rightarrow> string \<Rightarrow> byte list \<Rightarrow> wevent list" where
  "send_zip env name bs =
     [SetHeader ''Content-Type'' ''application/zip'',
      SetHeader ''Content-Disposition'' (''attachment; filename='' @ name @ ''.zip''),
      Write bs] @
     (case client_write env of
        Some e \<Rightarrow> [HttpError ''Error writing to client.'' 500]
      | None \<Rightarrow> [])"

text \<open>
  \<open>download\<close>. \<open>oBuffer\<close> is the address \<open>p\<close>; a nil store or a nil
  \<open>oBuffer\<close> is dereferenced at the first use. Errors of \<open>Destroy\<close> and of
  \<open>store.Destroy\<close> are logged and the handler goes on; a \<open>Destroy\<close> that waits
  or panics takes the handler with it (\<open>Destroy\<close> never ends the process; the
  branch for that is there to leave no case open). The log itself is not modelled, nor is
  the \<open>Mlock\<close> of the decrypted bytes, whose refusal is logged and nothing else.
\<close>

definition download_get :: "env \<Rightarrow> request \<Rightarrow> onionbox \<Rightarrow> outcome" where
  "download_get env r ob =
     (case store ob of
        None \<Rightarrow> (Panicked, [], ob)
      | Some s \<Rightarrow>
         (case store_Get s (filename r) of
            None \<Rightarrow> (Panicked, [], ob)
          | Some p \<Rightarrow>
             (let b = heap ob p in
              if Encrypted b then (Returned (), page env ''download_encrypted'', ob)
              else if DownloadLimit b > 0 \<and> Downloads b \<ge> DownloadLimit b then
                (case store_Destroy (sys env) p ob s of
                   (Returned err, ob') \<Rightarrow>
                     (Returned (), [HttpError ''Download limit reached.'' 401], ob')
                 | (Panicked, ob') \<Rightarrow> (Panicked, [], ob')
                 | (Blocked, ob') \<Rightarrow> (Blocked, [], ob')
                 | (Crashed, ob') \<Rightarrow> (Crashed, [], ob'))
              else
                (case ValidateChecksum env b of
                   Inl e \<Rightarrow> (Returned (), [HttpError ''Error validating checksum.'' 500], ob)
                 | Inr False \<Rightarrow> (Returned (), [HttpError ''Invalid checksum.'' 500], ob)
                 | Inr True \<Rightarrow>
                    (let b1 = b\<lparr>Downloads := incr (Downloads b)\<rparr>;
                         (d, b2) = (if Downloads b1 \<ge> DownloadLimit b1
                                    then Destroy (sys env) b1
                                    else (Returned None, b1));
                         ob' = ob\<lparr>heap := (heap ob)(p := b2)\<rparr>
                     in
                     case d of
                       Returned err \<Rightarrow>
                         (Returned (), send_zip env (Name b2) (content (Bytes b2)), ob')
                     | Panicked \<Rightarrow> (Panicked, [], ob')
                     | Blocked \<Rightarrow> (Blocked, [], ob')
                     | Crashed \<Rightarrow> (Crashed, [], ob'))))))"

definition download_post :: "env \<Rightarrow> request \<Rightarrow> onionbox \<Rightarrow> outcome" where
  "download_post env r ob =
     (case store ob of
        None \<Rightarrow> (Panicked, [], ob)
      | Some s \<Rightarrow>
         (case store_Get s (filename r) of
            None \<Rightarrow> (Panicked, [], ob)
          | Some p \<Rightarrow>
             (let b = heap ob p in
              if DownloadLimit b > 0 \<and> Downloads b \<ge> DownloadLimit b then
                (case store_Destroy (sys env) p ob s of
                   (Returned err, ob') \<Rightarrow>
                     (Returned (), [HttpError ''Download limit reached.'' 401], ob')
                 | (Panicked, ob') \<Rightarrow> (Panicked, [], ob')
                 | (Blocked, ob') \<Rightarrow> (Blocked, [], ob')
                 | (Crashed, ob') \<Rightarrow> (Crashed, [], ob'))
              else
                (case ValidateChecksum env b of
                   Inl e \<Rightarrow> (Returned (), [HttpError ''Error validating checksum.'' 500], ob)
                 | Inr False \<Rightarrow> (Returned (), [HttpError ''Invalid checksum.'' 500], ob)
                 | Inr True \<Rightarrow>
                    (case decrypt env (content (Bytes b)) (form r ''password'') of
                       Inl e \<Rightarrow> (Returned (), [HttpError ''Error decrypting buffer.'' 500], ob)
                     | Inr decryptedBytes \<Rightarrow>
                        (let b1 = b\<lparr>Downloads := incr (Downloads b)\<rparr>;
                             ob1 = ob\<lparr>heap := (heap ob)(p := b1)\<rparr>;
                             (d, ob') = (if Downloads b1 \<ge> DownloadLimit b1
                                         then store_Destroy (sys env) p ob1 s
                                         else (Returned None, ob1))
                         in
                         case d of
                           Returned err \<Rightarrow>
                             (Returned (), send_zip env (Name (heap ob' p)) decryptedBytes, ob')
                         | Panicked \<Rightarrow> (Panicked, [], ob')
                         | Blocked \<Rightarrow> (Blocked, [], ob')
                         | Crashed \<Rightarrow> (Crashed, [], ob')))))))"

definition download :: "env \<Rightarrow> request \<Rightarrow> onionbox \<Rightarrow> outcome" where
  "download env r ob =
     (if Method r = ''GET'' then download_get env r ob
      else if Method r = ''POST'' then download_post env r ob
      else (Returned (), [HttpError ''Invalid HTTP Method.'' 405], ob))"

subsection \<open>upload\<close>

text \<open>
  The three optional parts of the POST branch of \<open>upload\<close>, each either returning
  early with its \<open>http.Error\<close> (\<open>Inl\<close>) or handing on the buffer (\<open>Inr\<close>).
  First the content: the archive or its encryption is assigned to \<open>oBuffer.Bytes\<close>,
  the memory is locked (a refusal is logged and nothing else), and the checksum is taken.
  \<open>z\<close> is \<open>zipBuffer.Bytes()\<close>.
\<close>

definition upload_content :: "env \<Rightarrow> request \<Rightarrow> slice \<Rightarrow> OnionBuffer \<Rightarrow> wevent list + OnionBuffer" where
  "upload_content env r z oBuffer =
     (if form r ''password_enabled'' = ''on'' then
        (case encrypt env (content z) (form r ''password'') of
           Inl e \<Rightarrow> Inl [HttpError ''Error encrypting buffer.'' 500]
         | Inr c \<Rightarrow>
            (let b1 = oBuffer\<lparr>Bytes := snd (Mlock (mlock_bytes env) (c\<lparr>mlocked := False\<rparr>))\<rparr>;
                 b2 = b1\<lparr>Encrypted := True\<rparr>
             in
             case GetChecksum env b2 of
               Inl e \<Rightarrow> Inl [HttpError ''Error getting checksum.'' 500]
             | Inr chksm \<Rightarrow> Inr (b2\<lparr>Checksum := chksm\<rparr>)))
      else
        (let b1 = oBuffer\<lparr>Bytes := snd (Mlock (mlock_bytes env) (z\<lparr>mlocked := False\<rparr>))\<rparr> in
         case GetChecksum env b1 of
           Inl e \<Rightarrow> Inl [HttpError ''Error getting checksum.'' 500]
         | Inr chksm \<Rightarrow> Inr (b1\<lparr>Checksum := chksm\<rparr>)))"

definition upload_limit :: "env \<Rightarrow> request \<Rightarrow> OnionBuffer \<Rightarrow> wevent list + OnionBuffer" where
  "upload_limit env r oBuffer =
     (if form r ''limit_downloads'' = ''on'' then
        (case atoi env (form r ''download_limit'') of
           Inl e \<Rightarrow> Inl [HttpError ''Error getting expiration time.'' 500]
         | Inr limit \<Rightarrow> Inr (oBuffer\<lparr>DownloadLimit := limit\<rparr>))
      else Inr oBuffer)"

definition upload_expire :: "env \<Rightarrow> request \<Rightarrow> OnionBuffer \<Rightarrow> wevent list + OnionBuffer" where
  "upload_expire env r oBuffer =
     (if form r ''expire'' = ''on'' then
        (case SetExpiration env (form r ''expiration_time'' @ ''m'') oBuffer of
           Inl e \<Rightarrow> Inl [HttpError ''Error parsing expiration time.'' 500]
         | Inr b \<Rightarrow> Inr b)
      else Inr oBuffer)"

text \<open>
  The end of the POST branch, as the handler's goroutine goes through it:
  \<open>ob.store.Add(oBuffer)\<close>, then \<open>oBuffer.Destroy()\<close> on the same
  pointer, then the link for the client. The buffer lives at the fresh address
  \<open>p\<close>. What becomes of the process meanwhile is told in \<open>upload\<close>.
\<close>

definition upload_store :: "env \<Rightarrow> OnionBuffer \<Rightarrow> onionbox \<Rightarrow> outcome" where
  "upload_store env oBuffer ob =
     (let p = fresh ob;
          ob1 = ob\<lparr>heap := (heap ob)(p := oBuffer), fresh := Suc p\<rparr>
      in
      case store ob1 of
        None \<Rightarrow> (Panicked, [], ob1)
      | Some s \<Rightarrow>
         (case store_Add p ob1 s of
            (Some e, s') \<Rightarrow> (Returned (), [HttpError ''Error adding file to store.'' 500], ob1)
          | (None, s') \<Rightarrow>
             (let ob2 = ob1\<lparr>store := Some s'\<rparr>;
                  (d, b) = Destroy (sys env) (heap ob2 p);
                  ob3 = ob2\<lparr>heap := (heap ob2)(p := b)\<rparr>
              in
              case d of
                Returned err \<Rightarrow>
                  (Returned (),
                   WriteString (''Files uploaded. Please share this link with your recipients: http://''
                                @ onionURL ob3 @ ''.onion/'' @ Name b) #
                   (case client_write env of
                      Some e \<Rightarrow> [HttpError ''Error writing to client.'' 500]
                    | None \<Rightarrow> []),
                   ob3)
              | Panicked \<Rightarrow> (Panicked, [], ob3)
              | Blocked \<Rightarrow> (Blocked, [], ob3)
              | Crashed \<Rightarrow> (Crashed, [], ob3))))"

text \<open>
  The POST branch of \<open>upload\<close> from \<open>close(uploadQueue)\<close> to the
  handler's return, as the handler's goroutine goes through it when nothing stops it.
  \<open>z\<close> is \<open>zipBuffer.Bytes()\<close>. The \<open>ChunkSize\<close> that the struct
  literal names is not a field of \<open>OnionBuffer\<close> as declared.
\<close>

definition upload_handler :: "env \<Rightarrow> request \<Rightarrow> slice \<Rightarrow> onionbox \<Rightarrow> outcome" where
  "upload_handler env r z ob =
     (case upload_content env r z (new_OnionBuffer (silly_name env)) of
        Inl evs \<Rightarrow> (Returned (), evs, ob)
      | Inr b1 \<Rightarrow>
         (case upload_limit env r b1 of
            Inl evs \<Rightarrow> (Returned (), evs, ob)
          | Inr b2 \<Rightarrow>
             (case upload_expire env r b2 of
                Inl evs \<Rightarrow> (Returned (), evs, ob)
              | Inr b3 \<Rightarrow> upload_store env b3 ob)))"

text \<open>
  \<open>upload\<close>. The queue holds 100 file headers and nobody receives while the handler
  fills it, so the 101st send waits for ever. The handler then waits at \<open>wg.Wait()\<close>
  for the worker goroutine. A worker that returns an error answers the client itself and
  never calls \<open>wg.Done()\<close>, so the handler waits for ever. A worker that has
  written every file calls \<open>wg.Done()\<close> and stays in its loop, where its next
  turns panic (a second \<open>wg.Done()\<close> on the counter 0, or
  \<open>fileHeader.Open()\<close> on the nil received from the closed queue; see the upload
  queue below and lemma \<open>signal_then_crash\<close>): the process ends, whatever the
  handler was doing. Of the handler's writes the client has got the first
  \<open>head_start env\<close>; the memory ends with the process, so the outcome keeps the
  memory as the request found it, and no request is served after it.
\<close>

definition upload :: "env \<Rightarrow> request \<Rightarrow> onionbox \<Rightarrow> outcome" where
  "upload env r ob =
     (if Method r = ''GET'' then (Returned (), page env ''upload'', ob)
      else if Method r = ''POST'' then
        (case parse_form env of
           Some e \<Rightarrow> (Returned (), [HttpError ''Error parsing files.'' 500], ob)
         | None \<Rightarrow>
            (if length (files r) > 100 then (Blocked, [], ob)
             else
               (case zip_files env (files r) of
                  Inl e \<Rightarrow> (Blocked, [HttpError ''Error writing your files to memory.'' 500], ob)
                | Inr z \<Rightarrow>
                   (let (res, evs, ob') = upload_handler env r z ob
                    in (Crashed, take (head_start env) evs, ob)))))
      else (Returned (), [HttpError ''Invalid HTTP Method.'' 405], ob))"

subsection \<open>router\<close>

text \<open>
  \<open>downloadURLreg.FindStringSubmatch(path) != nil\<close> for the expression
  \<open>((?:[a-z][a-z]+))\<close>: somewhere in the path two lower-case letters follow each
  other.
\<close>

definition lower :: "char \<Rightarrow> bool" where
  "lower c = (97 \<le> (of_char c :: nat) \<and> (of_char c :: nat) \<le> 122)"

fun downloadURLreg :: "string \<Rightarrow> bool" where
  "downloadURLreg (c # d # cs) = (lower c \<and> lower d \<or> downloadURLreg (d # cs))"
| "downloadURLreg cs = False"

text \<open>
  \<open>router\<close>. \<open>r.URL.Path[1:]\<close> is \<open>drop 1\<close>: a path that matches has two
  characters at least. The \<open>else\<close> with \<open>File not found\<close> belongs to the test
  \<open>ob.store != nil\<close>; the test \<open>ob.store.Exists\<close> has no \<open>else\<close>.
\<close>

definition router :: "env \<Rightarrow> request \<Rightarrow> onionbox \<Rightarrow> outcome" where
  "router env r ob =
     (if path r = ''/'' then upload env r ob
      else if downloadURLreg (path r) then
        (case store ob of
           Some s \<Rightarrow>
             (if store_Exists s (drop 1 (path r))
              then download env (r\<lparr>filename := drop 1 (path r)\<rparr>) ob
              else (Returned (), [], ob))
         | None \<Rightarrow> (Returned (), [HttpError ''File not found'' 404], ob))
      else (Returned (), [HttpError ''404 page not found'' 404], ob))"

subsection \<open>The upload queue: the handler and \<open>writeFilesToBuffers\<close>\<close>

text \<open>
  The two goroutines of an upload and what they share: the buffered channel
  \<open>uploadQueue\<close> (its content and whether it is closed), the counter of the
  \<open>sync.WaitGroup\<close>, and the files written to the zip so far. \<open>dones\<close> counts
  the calls of \<open>wg.Done()\<close>, and \<open>crashed\<close> records a panic of the worker
  goroutine, which nothing recovers and which ends the process.

  The handler fills the queue with the files still to send, then starts the worker
  (\<open>wg.Add(1)\<close>, \<open>go\<close>), waits in \<open>wg.Wait()\<close>, closes the queue and
  goes on. The worker is at its \<open>select\<close>, or in the \<open>default\<close> branch before
  the test \<open>len(uploadQueue) == 0\<close>, or has returned an error, or has panicked.
\<close>

datatype handler_pc = Filling "FileHeader list" | Waiting | Closing | Finished

datatype worker_pc = Unborn | Selecting | Checking | Failed | Dead

record pipe =
  queue :: "FileHeader list"
  closed :: bool
  wg :: int
  archive :: "FileHeader list"
  dones :: nat
  crashed :: bool
  handler :: handler_pc
  worker :: worker_pc

definition start :: "FileHeader list \<Rightarrow> pipe" where
  "start fs =
     \<lparr>queue = [], closed = False, wg = 0, archive = [], dones = 0, crashed = False,
      handler = Filling fs, worker = Unborn\<rparr>"

text \<open>
  One step of the handler: a send on the channel (which has room for 100 and waits
  otherwise), the start of the worker, \<open>wg.Wait()\<close> (which returns once the
  counter is zero), \<open>close(uploadQueue)\<close>.
\<close>

definition handler_step :: "pipe \<Rightarrow> pipe" where
  "handler_step s =
     (case handler s of
        Filling [] \<Rightarrow> s\<lparr>wg := wg s + 1, worker := Selecting, handler := Waiting\<rparr>
      | Filling (f # rest) \<Rightarrow>
          (if length (queue s) < 100
           then s\<lparr>queue := queue s @ [f], handler := Filling rest\<rparr>
           else s)
      | Waiting \<Rightarrow> (if wg s = 0 then s\<lparr>handler := Closing\<rparr> else s)
      | Closing \<Rightarrow> s\<lparr>closed := True, handler := Finished\<rparr>
      | Finished \<Rightarrow> s)"

text \<open>
  One step of the worker in \<open>writeFilesToBuffers\<close>. At the \<open>select\<close> a
  file header is received when the queue has one, and written to the zip (\<open>ok\<close>
  says whether \<open>Open\<close>, \<open>Create\<close>, \<open>writeBytesByChunk\<close> and
  \<open>Flush\<close> all succeed; otherwise the worker returns the error); on a closed and
  empty queue the receive yields nil and \<open>fileHeader.Open()\<close> panics; on an open
  and empty queue the \<open>default\<close> branch is taken. There, when the queue has length
  0, \<open>wg.Done()\<close> is called, which panics on a negative counter, and the loop goes
  round.
\<close>

definition worker_step :: "bool \<Rightarrow> pipe \<Rightarrow> pipe" where
  "worker_step ok s =
     (case worker s of
        Selecting \<Rightarrow>
          (case queue s of
             f # fs \<Rightarrow>
               (if ok then s\<lparr>queue := fs, archive := archive s @ [f]\<rparr>
                else s\<lparr>queue := fs, worker := Failed\<rparr>)
           | [] \<Rightarrow>
               (if closed s then s\<lparr>crashed := True, worker := Dead\<rparr>
                else s\<lparr>worker := Checking\<rparr>))
      | Checking \<Rightarrow>
          (if length (queue s) = 0 then
             (if wg s - 1 < 0
              then s\<lparr>wg := wg s - 1, dones := Suc (dones s), crashed := True, worker := Dead\<rparr>
              else s\<lparr>wg := wg s - 1, dones := Suc (dones s), worker := Selecting\<rparr>)
           else s\<lparr>worker := Selecting\<rparr>)
      | _ \<Rightarrow> s)"

text \<open>
  A schedule says which goroutine moves next; \<open>run\<close> follows it from a state. After
  a crash nothing moves.
\<close>

datatype move = Handler | Worker bool

definition exec :: "move \<Rightarrow> pipe \<Rightarrow> pipe" where
  "exec m s =
     (if crashed s then s
      else (case m of Handler \<Rightarrow> handler_step s | Worker ok \<Rightarrow> worker_step ok s))"

fun run :: "move list \<Rightarrow> pipe \<Rightarrow> pipe" where
  "run [] s = s"
| "run (m # ms) s = run ms (exec m s)"

section \<open>Examples and auxiliary notions\<close>

text \<open>
  An operating system and a zip writer that fail nowhere, the writer keeping what it is
  given in its own 4096-byte buffer (nothing reaches the \<open>bytes.Buffer\<close>).
\<close>

definition calm :: destroy_env where
  "calm =
     \<lparr>mlock_chunk = None, zip_create_ok = True, zip_emit = (\<lambda>k. []),
      zip_err = (\<lambda>k. None), munlock_bytes = None\<rparr>"

text \<open>Whether all of the first \<open>n\<close> cells of the shared array lie inside the buffer.\<close>

fun covers :: "nat \<Rightarrow> Buffer \<Rightarrow> bool" where
  "covers n (Aliased l) = (n \<le> l)"
| "covers n (Own xs) = True"

text \<open>A stored archive of four bytes with room for two more, pinned, for the examples.\<close>

definition sample_buffer :: OnionBuffer where
  "sample_buffer =
     (new_OnionBuffer ''sillyname'')
       \<lparr>Bytes := \<lparr>arr = [80, 75, 3, 4, 0, 0], len = 4, mlocked = True\<rparr>\<rparr>"

text \<open>
  A world for the examples: a byte-sum for the digest, a shift by the length of the
  passphrase for the cipher, the concatenated files with two spare cells for the archive,
  a name generator that says \<open>sillyname\<close>, and nothing that fails.
\<close>

definition sample_env :: env where
  "sample_env =
     \<lparr>sys = calm, now = 63897724800000000000, csrf = Inr ''token'',
      template_parse = None, template_execute = None,
      digest = (\<lambda>bs. [char_of (sum_list (map unat bs))]),
      checksum_err = None,
      encrypt = (\<lambda>bs pass. Inr \<lparr>arr = map (\<lambda>x. x + of_nat (length pass)) bs,
                                   len = length bs, mlocked = False\<rparr>),
      decrypt = (\<lambda>bs pass. Inr (map (\<lambda>x. x - of_nat (length pass)) bs)),
      mlock_bytes = None, client_write = None, parse_form = None,
      zip_files = (\<lambda>fs. Inr \<lparr>arr = concat (map snd fs) @ [0, 0],
                              len = length (concat (map snd fs)), mlocked = False\<rparr>),
      head_start = 0, silly_name = ''sillyname'',
      atoi = (\<lambda>s. if s = ''1'' then Inr 1 else Inl (Err ''invalid syntax'')),
      parse_duration = (\<lambda>s. Inl (Err ''invalid duration''))\<rparr>"

text \<open>The \<open>onionbox\<close> as \<open>main\<close> sets it up, with an empty store.\<close>

definition sample_box :: onionbox where
  "sample_box =
     \<lparr>version = ''v0.1.0'', port = 80, debug = False, store = Some Map.empty,
      maxFormMemory = 512, torVersion3 = True, onionURL = ''exampleonion'',
      chunkSize = 1024, heap = (\<lambda>p. new_OnionBuffer []), fresh = 0\<rparr>"

text \<open>
  Requests: an upload of one file with neither passphrase nor limit nor expiry, and the
  GET and the POST (with the passphrase) for the name \<open>sillyname\<close>.
\<close>

definition plain_upload :: request where
  "plain_upload =
     \<lparr>Method = ''POST'', path = ''/'', filename = [], form = (\<lambda>k. []),
      files = [(''a.txt'', [80, 75, 3, 4])]\<rparr>"

definition get_sillyname :: request where
  "get_sillyname =
     \<lparr>Method = ''GET'', path = ''/sillyname'', filename = [], form = (\<lambda>k. []), files = []\<rparr>"

definition post_sillyname :: request where
  "post_sillyname =
     \<lparr>Method = ''POST'', path = ''/sillyname'', filename = [],
      form = (\<lambda>k. if k = ''password'' then ''secret123'' else []), files = []\<rparr>"


text \<open>The state a handler leaves, and the entry of the store under a name.\<close>

definition after :: "outcome \<Rightarrow> onionbox" where
  "after out = snd (snd out)"

definition entry :: "onionbox \<Rightarrow> string \<Rightarrow> OnionBuffer option" where
  "entry ob name =
     (case store ob of
        None \<Rightarrow> None
      | Some s \<Rightarrow> (case s name of None \<Rightarrow> None | Some p \<Rightarrow> Some (heap ob p)))"

text \<open>
  The entry \<open>name\<close> of the store \<open>s\<close> is the buffer at address \<open>p\<close>:
  not encrypted, its mutex free, with limit \<open>L\<close>, \<open>d\<close> downloads so far,
  content \<open>c\<close> and checksum \<open>chk\<close>.
\<close>

definition offered ::
  "string \<Rightarrow> nat \<Rightarrow> OnionStore \<Rightarrow> int \<Rightarrow> int \<Rightarrow> byte list \<Rightarrow> string \<Rightarrow> onionbox \<Rightarrow> bool"
where
  "offered name p s L d c chk ob \<longleftrightarrow>
     store ob = Some s \<and> s name = Some p \<and> Name (heap ob p) = name \<and>
     \<not> Encrypted (heap ob p) \<and> \<not> Mutex (heap ob p) \<and>
     DownloadLimit (heap ob p) = L \<and> Downloads (heap ob p) = d \<and>
     content (Bytes (heap ob p)) = c \<and> Checksum (heap ob p) = chk"

text \<open>The sample \<open>onionbox\<close> with the buffer \<open>b\<close> stored at address 0.\<close>

definition stocked_box :: "OnionBuffer \<Rightarrow> onionbox" where
  "stocked_box b =
     sample_box\<lparr>store := Some [Name b \<mapsto> 0], heap := (heap sample_box)(0 := b), fresh := 1\<rparr>"

text \<open>
  Buffers as the upload handler hands them to the store: the sample buffer with its
  checksum taken, without a limit (\<open>unlimited_buffer\<close>) or with a limit of one
  download (\<open>single_buffer\<close>), and the same archive encrypted under the passphrase
  \<open>secret123\<close>, without a limit (\<open>secret_buffer\<close>) or with a limit of one
  or of two downloads.
\<close>

definition unlimited_buffer :: OnionBuffer where
  "unlimited_buffer =
     sample_buffer\<lparr>Checksum := digest sample_env (content (Bytes sample_buffer))\<rparr>"

definition single_buffer :: OnionBuffer where
  "single_buffer = unlimited_buffer\<lparr>DownloadLimit := 1\<rparr>"

definition secret_buffer :: OnionBuffer where
  "secret_buffer =
     (new_OnionBuffer ''sillyname'')
       \<lparr>Bytes := \<lparr>arr = [89, 84, 12, 13], len = 4, mlocked = True\<rparr>,
        Checksum := digest sample_env [89, 84, 12, 13],
        Encrypted := True\<rparr>"



text \<open>The sample buffer with its checksum taken and a limit of two downloads.\<close>

definition limited_buffer :: OnionBuffer where
  "limited_buffer =
     sample_buffer\<lparr>Checksum := digest sample_env (content (Bytes sample_buffer)),
                   DownloadLimit := 2\<rparr>"

text \<open>
  What holds of the upload queue at every moment of every schedule, for the files
  \<open>fs\<close> of the form.
\<close>

fun unsent :: "handler_pc \<Rightarrow> FileHeader list" where
  "unsent (Filling rest) = rest"
| "unsent h = []"

fun filling :: "handler_pc \<Rightarrow> bool" where
  "filling (Filling rest) = True"
| "filling h = False"

definition pipe_inv :: "FileHeader list \<Rightarrow> pipe \<Rightarrow> bool" where
  "pipe_inv fs s \<longleftrightarrow>
     wg s = (if worker s = Unborn then 0 else 1) - int (dones s) \<and>
     (worker s = Unborn \<longleftrightarrow> filling (handler s)) \<and>
     (worker s = Unborn \<longrightarrow> dones s = 0) \<and>
     (worker s \<noteq> Failed \<longrightarrow> archive s @ queue s @ unsent (handler s) = fs) \<and>
     (0 < dones s \<longrightarrow> queue s = [] \<and> worker s \<noteq> Failed) \<and>
     (worker s = Checking \<longrightarrow> queue s = []) \<and>
     (handler s = Closing \<or> handler s = Finished \<longrightarrow> 0 < dones s) \<and>
     (closed s \<longrightarrow> handler s = Finished)"

section \<open>Properties\<close>

subsection \<open>Destroy never touches the content\<close>

lemma Buffer_Write_keeps:
  assumes "covers n B"
  shows "take n (fst (Buffer_Write p (a, B))) = take n a \<and> covers n (snd (Buffer_Write p (a, B)))"
proof (cases B)
  case (Aliased l)
  with assms have nl: "n \<le> l" by simp
  show ?thesis
  proof (cases "length p \<le> length a - l")
    case True
    have "take n (take l a @ p @ drop (l + length p) a) = take n a"
    proof (cases "l \<le> length a")
      case True
      then show ?thesis using nl by simp
    next
      case False
      then have "p = []" using \<open>length p \<le> length a - l\<close> by simp
      then show ?thesis using False by simp
    qed
    then show ?thesis using Aliased True nl by simp
  next
    case False
    then show ?thesis using Aliased by simp
  qed
next
  case (Own xs)
  then show ?thesis by simp
qed

lemma wipe_loop_keeps:
  "covers n B \<Longrightarrow> take n (fst (snd (wipe_loop env rs k (a, B)))) = take n a"
proof (induction rs arbitrary: k a B)
  case Nil
  then show ?case by simp
next
  case (Cons r rs)
  show ?case
  proof (cases r)
    case (ReadErr e)
    then show ?thesis by simp
  next
    case ReadOk
    obtain a' B' where w: "Buffer_Write (zip_emit env k) (a, B) = (a', B')"
      by (cases "Buffer_Write (zip_emit env k) (a, B)")
    from Buffer_Write_keeps [OF Cons.prems, of "zip_emit env k" a] w
    have kp: "take n a' = take n a" "covers n B'" by simp_all
    from Cons.IH [OF kp(2), of "Suc k" a'] kp(1)
    have "take n (fst (snd (wipe_loop env rs (Suc k) (a', B')))) = take n a" by simp
    with ReadOk w kp show ?thesis
      by (simp add: Let_def split: option.splits)
  qed
qed

text \<open>
  Whatever the outcome, \<open>Destroy\<close> leaves the slice header alone and the array
  under it unchanged up to the slice's length; at most the pin is dropped.
\<close>

lemma Destroy_on_Bytes:
  "\<exists>a m. Bytes (snd (Destroy_on env rs b)) = (Bytes b)\<lparr>arr := a, mlocked := m\<rparr> \<and>
     take (len (Bytes b)) a = take (len (Bytes b)) (arr (Bytes b))"
proof (cases "Mutex b \<or> mlock_chunk env \<noteq> None")
  case True
  have "(Bytes b)\<lparr>arr := arr (Bytes b), mlocked := mlocked (Bytes b)\<rparr> = Bytes b" by simp
  moreover have "Bytes (snd (Destroy_on env rs b)) = Bytes b"
    using True by (auto simp: Destroy_on_def Lock_def)
  ultimately show ?thesis by metis
next
  case False
  define n where "n = len (Bytes b)"
  define st0 where "st0 = (if zip_create_ok env
       then Buffer_Write (zip_emit env 0) (arr (Bytes b), Aliased n)
       else (arr (Bytes b), Aliased n))"
  have c: "covers n (Aliased n)" by simp
  have st0: "take n (fst st0) = take n (arr (Bytes b))" "covers n (snd st0)"
    using Buffer_Write_keeps [OF c, of "zip_emit env 0" "arr (Bytes b)"]
    by (simp_all add: st0_def)
  obtain ex a B where w: "wipe_loop env rs 1 st0 = (ex, a, B)"
    by (cases "wipe_loop env rs 1 st0") auto
  have "take n (fst (snd (wipe_loop env rs 1 (fst st0, snd st0)))) = take n (fst st0)"
    by (rule wipe_loop_keeps [OF st0(2)])
  with w st0(1) have a: "take n a = take n (arr (Bytes b))" by simp
  have "Bytes (snd (Destroy_on env rs b)) = (Bytes b)\<lparr>arr := a, mlocked := mlocked (Bytes b)\<rparr>
      \<or> Bytes (snd (Destroy_on env rs b)) = (Bytes b)\<lparr>arr := a, mlocked := False\<rparr>"
    using False w
    by (auto simp: Destroy_on_def Lock_def Unlock_def Let_def Munlock_def st0_def n_def
             split: option.splits loop_exit.splits)
  with a show ?thesis unfolding n_def by blast
qed

lemma Destroy_content: "content (Bytes (snd (Destroy env b))) = content (Bytes b)"
  using Destroy_on_Bytes [of env "bytes_reader (Bytes b)" b]
  by (auto simp: content_def Destroy_def)

lemma Destroy_Returned_None:
  assumes "Destroy env b = (Returned None, b')"
  shows "\<not> Mutex b \<and> \<not> Mutex b'"
  using assms
  by (auto simp: Destroy_def Destroy_on_def Lock_def Unlock_def Let_def Munlock_def
           split: option.splits if_splits prod.splits loop_exit.splits)

lemma wipe_loop_calm:
  assumes "zip_create_ok env" "\<forall>k. zip_err env k = None"
  shows "fst (wipe_loop env (replicate n ReadOk @ [ReadErr EOF]) k st) = Break EOF"
  using assms by (induction n arbitrary: k st) (simp_all add: Let_def)

text \<open>With nothing failing, \<open>Destroy\<close> returns nil, frees the mutex and drops the pin.\<close>

lemma Destroy_willing:
  assumes free: "\<not> Mutex b"
      and calm: "mlock_chunk e = None" "zip_create_ok e" "\<forall>k. zip_err e k = None"
                "munlock_bytes e = None"
  shows "\<exists>a. Destroy e b = (Returned None, b\<lparr>Bytes := (Bytes b)\<lparr>arr := a, mlocked := False\<rparr>\<rparr>) \<and>
             take (len (Bytes b)) a = take (len (Bytes b)) (arr (Bytes b))"
proof -
  define st0 where "st0 = Buffer_Write (zip_emit e 0) (arr (Bytes b), Aliased (len (Bytes b)))"
  obtain ex a B where w: "wipe_loop e (bytes_reader (Bytes b)) 1 st0 = (ex, a, B)"
    by (cases "wipe_loop e (bytes_reader (Bytes b)) 1 st0") auto
  have "ex = Break EOF"
    using wipe_loop_calm [OF calm(2,3), of "len (Bytes b)" 1 st0] w
    by (simp add: bytes_reader_def)
  with w free calm
  have d: "Destroy e b = (Returned None, b\<lparr>Bytes := (Bytes b)\<lparr>arr := a, mlocked := False\<rparr>\<rparr>)"
    by (simp add: Destroy_def Destroy_on_def Lock_def Unlock_def Let_def Munlock_def st0_def)
  from Destroy_content [of e b] d
  have "take (len (Bytes b)) a = take (len (Bytes b)) (arr (Bytes b))"
    by (simp add: content_def)
  with d show ?thesis by blast
qed

subsection \<open>IsExpired\<close>

lemma IsExpired_iff: "IsExpired t b \<longleftrightarrow> ExpiresAt b \<le> t"
  by (auto simp: IsExpired_def After_def)

text \<open>
  Claim C1 says that \<open>IsExpired\<close> is true exactly when an expiry is configured and
  the current time has reached \<open>ExpiresAt\<close>, so that a buffer on which no
  expiration was ever set is never expired. The struct has no flag for a configured expiry:
  a buffer whose expiration was never set carries the zero \<open>time.Time\<close>, which is
  not after any present instant, and \<open>IsExpired\<close> answers true for it: on the
  buffer as \<open>upload\<close> makes it, at every instant from the zero time on, and so
  at an instant of the year 2025.
\<close>

theorem IsExpired_unset_expiry:
  "ExpiresAt (new_OnionBuffer name) = zeroTime \<and>
   IsExpired t (new_OnionBuffer name) = (zeroTime \<le> t) \<and>
   IsExpired 63897724800000000000 (new_OnionBuffer ''sillyname'')"
  by (simp add: IsExpired_def new_OnionBuffer_def After_def zeroTime_def)

subsection \<open>Destroy\<close>

text \<open>
  Claim C2 says that when \<open>Destroy\<close> returns without error every byte of the
  content has been overwritten with zeros and the content is empty. The writes of
  \<open>Destroy\<close> go to a \<open>bytes.Buffer\<close> that appends behind the content, and
  \<open>of.Bytes\<close> is never assigned: on a four-byte archive \<open>Destroy\<close>
  returns nil and the four bytes are read back as they were, and on every buffer, however
  the call ends, the content is what it was.
\<close>

theorem Destroy_leaves_content:
  "Destroy calm sample_buffer =
     (Returned None, sample_buffer\<lparr>Bytes := \<lparr>arr = [80, 75, 3, 4, 0, 0], len = 4, mlocked = False\<rparr>\<rparr>) \<and>
   content (Bytes (snd (Destroy calm sample_buffer))) = [80, 75, 3, 4] \<and>
   content (Bytes (snd (Destroy env b))) = content (Bytes b)"
proof (intro conjI)
  show "Destroy calm sample_buffer =
     (Returned None, sample_buffer\<lparr>Bytes := \<lparr>arr = [80, 75, 3, 4, 0, 0], len = 4, mlocked = False\<rparr>\<rparr>)"
    by code_simp
  show "content (Bytes (snd (Destroy calm sample_buffer))) = [80, 75, 3, 4]"
    by code_simp
  show "content (Bytes (snd (Destroy env b))) = content (Bytes b)"
    by (rule Destroy_content)
qed

text \<open>
  Claim C5 says that a second \<open>Destroy\<close> after a completed one returns no
  error, changes nothing and leaves the content empty. Counterexample to the claim as
  stated: after two calls that both return nil the content of the sample buffer is still
  its four bytes, and a second call whose \<open>Mlock\<close> is refused returns that
  error.
\<close>

theorem Destroy_twice_counterexample:
  "fst (Destroy calm sample_buffer) = Returned None \<and>
   fst (Destroy calm (snd (Destroy calm sample_buffer))) = Returned None \<and>
   content (Bytes (snd (Destroy calm (snd (Destroy calm sample_buffer))))) = [80, 75, 3, 4] \<and>
   content (Bytes (snd (Destroy calm (snd (Destroy calm sample_buffer))))) \<noteq> [] \<and>
   fst (Destroy (calm\<lparr>mlock_chunk := Some (Errno 12)\<rparr>) (snd (Destroy calm sample_buffer)))
     = Returned (Some (Errno 12))"
  by code_simp

text \<open>
  Claim C5 as amended: \<open>Destroy\<close> keeps no record of having run, so a second
  call after one that returned nil goes through the same steps. When its
  \<open>Mlock\<close>, its zip writes and its \<open>Munlock\<close> succeed, it returns nil
  again, and the buffer is as the first call left it (mutex free, every field and the
  slice header the same), apart from cells of the backing array behind the content;
  the content read after the second call is the content read after the first.
\<close>

theorem Destroy_again:
  assumes first: "Destroy env b = (Returned None, b1)"
      and calm: "mlock_chunk env' = None" "zip_create_ok env'" "\<forall>k. zip_err env' k = None"
                "munlock_bytes env' = None"
  shows "\<exists>a. Destroy env' b1 = (Returned None, b1\<lparr>Bytes := (Bytes b1)\<lparr>arr := a\<rparr>\<rparr>) \<and>
             content ((Bytes b1)\<lparr>arr := a\<rparr>) = content (Bytes b1)"
proof -
  from Destroy_Returned_None [OF first] have free: "\<not> Mutex b1" by simp
  have unpinned: "\<not> mlocked (Bytes b1)"
    using first
    by (auto simp: Destroy_def Destroy_on_def Lock_def Unlock_def Let_def Munlock_def
             split: option.splits if_splits prod.splits loop_exit.splits)
  define st0 where "st0 = Buffer_Write (zip_emit env' 0) (arr (Bytes b1), Aliased (len (Bytes b1)))"
  obtain ex a B where w: "wipe_loop env' (bytes_reader (Bytes b1)) 1 st0 = (ex, a, B)"
    by (cases "wipe_loop env' (bytes_reader (Bytes b1)) 1 st0") auto
  have "ex = Break EOF"
    using wipe_loop_calm [OF calm(2,3), of "len (Bytes b1)" 1 st0] w
    by (simp add: bytes_reader_def)
  with w free unpinned calm
  have d: "Destroy env' b1 = (Returned None, b1\<lparr>Bytes := (Bytes b1)\<lparr>arr := a\<rparr>\<rparr>)"
    by (simp add: Destroy_def Destroy_on_def Lock_def Unlock_def Let_def Munlock_def st0_def)
  from Destroy_content [of env' b1] d
  have "content ((Bytes b1)\<lparr>arr := a\<rparr>) = content (Bytes b1)" by simp
  with d show ?thesis by blast
qed

theorem Destroy_again_witness:
  "Destroy calm sample_buffer = (Returned None, sample_buffer\<lparr>Bytes := (Bytes sample_buffer)\<lparr>mlocked := False\<rparr>\<rparr>) \<and>
   (\<exists>a. Destroy calm (sample_buffer\<lparr>Bytes := (Bytes sample_buffer)\<lparr>mlocked := False\<rparr>\<rparr>) =
     (Returned None, sample_buffer\<lparr>Bytes := (Bytes sample_buffer)\<lparr>mlocked := False\<rparr>\<rparr>\<lparr>Bytes := (Bytes (sample_buffer\<lparr>Bytes := (Bytes sample_buffer)\<lparr>mlocked := False\<rparr>\<rparr>))\<lparr>arr := a\<rparr>\<rparr>) \<and>
     content ((Bytes (sample_buffer\<lparr>Bytes := (Bytes sample_buffer)\<lparr>mlocked := False\<rparr>\<rparr>))\<lparr>arr := a\<rparr>) = content (Bytes (sample_buffer\<lparr>Bytes := (Bytes sample_buffer)\<lparr>mlocked := False\<rparr>\<rparr>)))"
proof -
  have h: "Destroy calm sample_buffer = (Returned None, sample_buffer\<lparr>Bytes := (Bytes sample_buffer)\<lparr>mlocked := False\<rparr>\<rparr>)"
    by code_simp
  have c: "mlock_chunk calm = None" "zip_create_ok calm" "\<forall>k. zip_err calm k = None" "munlock_bytes calm = None"
    by (simp_all add: calm_def)
  show ?thesis using h Destroy_again [OF h c] by simp
qed

text \<open>
  Claim C10: when \<open>Destroy\<close> returns an error (from \<open>Mlock\<close>, from a
  write into the zip, from the reader, or from \<open>Munlock\<close>) it has not unlocked
  the mutex it took, so the mutex is still held afterwards and every later
  \<open>Lock\<close>, that of another \<open>Destroy\<close> included, waits for ever. Stated for
  the body of \<open>Destroy\<close> under any answers of its reader, so that the return on
  a read error other than \<open>io.EOF\<close> is covered, which the reader over
  \<open>of.Bytes\<close> never gives; \<open>Destroy\<close> itself is the case
  \<open>reader = bytes_reader (Bytes b)\<close>.
\<close>

theorem Destroy_error_keeps_mutex:
  assumes "Destroy_on env reader b = (Returned (Some e), b')"
  shows "Mutex b' \<and> Lock b' = None \<and>
         (\<forall>env' reader'. Destroy_on env' reader' b' = (Blocked, b')) \<and>
         (\<forall>env'. Destroy env' b' = (Blocked, b'))"
proof -
  have "Mutex b'"
    using assms
    by (auto simp: Destroy_on_def Lock_def Unlock_def Let_def Munlock_def
             split: option.splits if_splits prod.splits loop_exit.splits)
  then show ?thesis by (simp add: Destroy_def Destroy_on_def Lock_def)
qed

theorem Destroy_error_keeps_mutex_witness:
  "Destroy_on (calm\<lparr>mlock_chunk := Some (Errno 12)\<rparr>) (bytes_reader (Bytes sample_buffer))
      sample_buffer
     = (Returned (Some (Errno 12)), sample_buffer\<lparr>Mutex := True\<rparr>) \<and>
   Destroy_on calm [ReadOk, ReadErr (Err ''unexpected EOF'')] sample_buffer
     = (Returned (Some (Err ''unexpected EOF'')), sample_buffer\<lparr>Mutex := True\<rparr>) \<and>
   Mutex (sample_buffer\<lparr>Mutex := True\<rparr>) \<and>
   Lock (sample_buffer\<lparr>Mutex := True\<rparr>) = None \<and>
   Destroy calm (sample_buffer\<lparr>Mutex := True\<rparr>) = (Blocked, sample_buffer\<lparr>Mutex := True\<rparr>)"
proof -
  have h: "Destroy_on (calm\<lparr>mlock_chunk := Some (Errno 12)\<rparr>)
             (bytes_reader (Bytes sample_buffer)) sample_buffer
     = (Returned (Some (Errno 12)), sample_buffer\<lparr>Mutex := True\<rparr>)"
    by (simp add: Destroy_on_def Lock_def calm_def sample_buffer_def new_OnionBuffer_def)
  have g: "Destroy_on calm [ReadOk, ReadErr (Err ''unexpected EOF'')] sample_buffer
     = (Returned (Some (Err ''unexpected EOF'')), sample_buffer\<lparr>Mutex := True\<rparr>)"
    by (simp add: Destroy_on_def Lock_def calm_def sample_buffer_def new_OnionBuffer_def Let_def)
  show ?thesis
    using h g Destroy_error_keeps_mutex [OF h] Destroy_error_keeps_mutex [OF g] by simp
qed

subsection \<open>download: the checksum\<close>

lemma page_no_Write: "Write bs \<notin> set (page env name)"
  by (simp add: page_def split: sum.splits option.splits)

lemma download_get_Write:
  assumes "Write bs \<in> set (fst (snd (download_get env r ob)))"
  shows "\<exists>s p. store ob = Some s \<and> s (filename r) = Some p \<and>
           ValidateChecksum env (heap ob p) = Inr True"
  using assms
  by (auto simp: download_get_def store_Get_def Let_def page_no_Write
           split: option.splits if_splits sum.splits bool.splits prod.splits result.splits)

lemma download_post_Write:
  assumes "Write bs \<in> set (fst (snd (download_post env r ob)))"
  shows "\<exists>s p. store ob = Some s \<and> s (filename r) = Some p \<and>
           ValidateChecksum env (heap ob p) = Inr True"
  using assms
  by (auto simp: download_post_def store_Get_def Let_def
           split: option.splits if_splits sum.splits bool.splits prod.splits result.splits)

lemma ValidateChecksum_True:
  "ValidateChecksum env b = Inr True \<longleftrightarrow>
     checksum_err env = None \<and> digest env (content (Bytes b)) = Checksum b"
  by (simp add: ValidateChecksum_def split: option.splits)

lemma download_get_refused:
  assumes "store ob = Some s" "s (filename r) = Some p"
      and "\<not> Encrypted (heap ob p)"
      and "\<not> (DownloadLimit (heap ob p) > 0 \<and> Downloads (heap ob p) \<ge> DownloadLimit (heap ob p))"
      and "ValidateChecksum env (heap ob p) \<noteq> Inr True"
  shows "download_get env r ob = (Returned (), [HttpError ''Error validating checksum.'' 500], ob) \<or>
         download_get env r ob = (Returned (), [HttpError ''Invalid checksum.'' 500], ob)"
  using assms
  by (auto simp: download_get_def store_Get_def Let_def split: sum.splits bool.splits)

lemma download_post_refused:
  assumes "store ob = Some s" "s (filename r) = Some p"
      and "\<not> (DownloadLimit (heap ob p) > 0 \<and> Downloads (heap ob p) \<ge> DownloadLimit (heap ob p))"
      and "ValidateChecksum env (heap ob p) \<noteq> Inr True"
  shows "download_post env r ob = (Returned (), [HttpError ''Error validating checksum.'' 500], ob) \<or>
         download_post env r ob = (Returned (), [HttpError ''Invalid checksum.'' 500], ob)"
  using assms
  by (auto simp: download_post_def store_Get_def Let_def split: sum.splits bool.splits)

text \<open>
  Claim C7: before the bytes of a buffer are released to a downloader, on the GET path as
  on the POST path, the digest is recomputed over the current content and compared with
  the stored one, and a download whose verification fails is refused with an error and
  writes no content to the client. First part: whenever \<open>download\<close> writes bytes,
  the buffer was found in the store, \<open>ValidateChecksum\<close> returned no error and
  the digest of its content was the stored checksum. Second part: when the verification
  is reached (the method is POST, or GET on a buffer that is not encrypted, and the
  download limit is not yet met) and fails, the handler answers with one of its two
  \<open>http.Error\<close>s, status 500, writes nothing else and changes nothing.
\<close>

theorem download_verifies_before_release:
  "(Write bs \<in> set (fst (snd (download env r ob))) \<longrightarrow>
      (\<exists>s p. store ob = Some s \<and> s (filename r) = Some p \<and>
         checksum_err env = None \<and>
         digest env (content (Bytes (heap ob p))) = Checksum (heap ob p))) \<and>
   (store ob = Some s \<and> s (filename r) = Some p \<and>
    (checksum_err env \<noteq> None \<or>
       digest env (content (Bytes (heap ob p))) \<noteq> Checksum (heap ob p)) \<and>
    (Method r = ''POST'' \<or> Method r = ''GET'' \<and> \<not> Encrypted (heap ob p)) \<and>
    \<not> (DownloadLimit (heap ob p) > 0 \<and> Downloads (heap ob p) \<ge> DownloadLimit (heap ob p)) \<longrightarrow>
      download env r ob = (Returned (), [HttpError ''Error validating checksum.'' 500], ob) \<or>
      download env r ob = (Returned (), [HttpError ''Invalid checksum.'' 500], ob))"
proof (intro conjI impI)
  assume w: "Write bs \<in> set (fst (snd (download env r ob)))"
  then have "\<exists>s p. store ob = Some s \<and> s (filename r) = Some p \<and>
           ValidateChecksum env (heap ob p) = Inr True"
    using download_get_Write [of bs env r ob] download_post_Write [of bs env r ob]
    by (auto simp: download_def split: if_splits)
  then show "\<exists>s p. store ob = Some s \<and> s (filename r) = Some p \<and>
         checksum_err env = None \<and>
         digest env (content (Bytes (heap ob p))) = Checksum (heap ob p)"
    by (simp add: ValidateChecksum_True)
next
  assume a: "store ob = Some s \<and> s (filename r) = Some p \<and>
    (checksum_err env \<noteq> None \<or>
       digest env (content (Bytes (heap ob p))) \<noteq> Checksum (heap ob p)) \<and>
    (Method r = ''POST'' \<or> Method r = ''GET'' \<and> \<not> Encrypted (heap ob p)) \<and>
    \<not> (DownloadLimit (heap ob p) > 0 \<and> Downloads (heap ob p) \<ge> DownloadLimit (heap ob p))"
  then have v: "ValidateChecksum env (heap ob p) \<noteq> Inr True"
    by (auto simp: ValidateChecksum_True)
  from a v show "download env r ob = (Returned (), [HttpError ''Error validating checksum.'' 500], ob) \<or>
      download env r ob = (Returned (), [HttpError ''Invalid checksum.'' 500], ob)"
    using download_get_refused [of ob s r p env] download_post_refused [of ob s r p env]
    by (auto simp: download_def)
qed

theorem download_verifies_before_release_witness:
  "(Write [80, 75, 3, 4]
      \<in> set (fst (snd (download sample_env (get_sillyname\<lparr>filename := ''sillyname''\<rparr>)
                          (stocked_box limited_buffer)))) \<and>
    (\<exists>s p. store (stocked_box limited_buffer) = Some s \<and> s ''sillyname'' = Some p \<and>
       checksum_err sample_env = None \<and>
       digest sample_env (content (Bytes (heap (stocked_box limited_buffer) p)))
         = Checksum (heap (stocked_box limited_buffer) p))) \<and>
   (digest sample_env (content (Bytes (heap (stocked_box (limited_buffer\<lparr>Checksum := ''tampered''\<rparr>)) 0)))
      \<noteq> Checksum (heap (stocked_box (limited_buffer\<lparr>Checksum := ''tampered''\<rparr>)) 0) \<and>
    (download sample_env (get_sillyname\<lparr>filename := ''sillyname''\<rparr>)
       (stocked_box (limited_buffer\<lparr>Checksum := ''tampered''\<rparr>))
       = (Returned (), [HttpError ''Error validating checksum.'' 500],
          stocked_box (limited_buffer\<lparr>Checksum := ''tampered''\<rparr>)) \<or>
     download sample_env (get_sillyname\<lparr>filename := ''sillyname''\<rparr>)
       (stocked_box (limited_buffer\<lparr>Checksum := ''tampered''\<rparr>))
       = (Returned (), [HttpError ''Invalid checksum.'' 500],
          stocked_box (limited_buffer\<lparr>Checksum := ''tampered''\<rparr>))))"
proof -
  let ?r = "get_sillyname\<lparr>filename := ''sillyname''\<rparr>"
  let ?bad = "stocked_box (limited_buffer\<lparr>Checksum := ''tampered''\<rparr>)"
  have w: "Write [80, 75, 3, 4]
      \<in> set (fst (snd (download sample_env ?r (stocked_box limited_buffer))))"
    by code_simp
  have st: "store ?bad = Some [''sillyname'' \<mapsto> 0]" "[''sillyname'' \<mapsto> (0::nat)] (filename ?r) = Some 0"
    by (simp_all add: stocked_box_def limited_buffer_def sample_buffer_def new_OnionBuffer_def)
  have bad: "digest sample_env (content (Bytes (heap ?bad 0))) \<noteq> Checksum (heap ?bad 0)"
    by code_simp
  have m: "Method ?r = ''GET'' \<and> \<not> Encrypted (heap ?bad 0)"
    "\<not> (DownloadLimit (heap ?bad 0) > 0 \<and> Downloads (heap ?bad 0) \<ge> DownloadLimit (heap ?bad 0))"
    by code_simp+
  have f: "filename ?r = ''sillyname''" by simp
  show ?thesis
    using download_verifies_before_release
            [of "[80, 75, 3, 4]" sample_env ?r "stocked_box limited_buffer"]
          download_verifies_before_release
            [of _ sample_env ?r ?bad "[''sillyname'' \<mapsto> 0]" 0]
          w st bad m
    unfolding f by blast
qed

subsection \<open>router\<close>



text \<open>
  Claim C9 says that a download request for a name that is not in the store is answered
  with a NotFound error. \<open>router\<close> answers \<open>File not found\<close> only when
  \<open>ob.store\<close> is nil; with a store that lacks the name it returns without
  writing anything: the request for \<open>/sillyname\<close> on the empty store gets no
  \<open>http.Error\<close>, only the empty reply.
\<close>

theorem router_unknown_name_no_reply:
  "store sample_box \<noteq> None \<and>
   entry sample_box ''sillyname'' = None \<and>
   fst (router sample_env get_sillyname sample_box) = Returned () \<and>
   fst (snd (router sample_env get_sillyname sample_box)) = [] \<and>
   fst (snd (router sample_env get_sillyname sample_box)) \<noteq> [HttpError ''File not found'' 404]"
  by code_simp

subsection \<open>download: the limit\<close>






lemma post_reaching_limit_evicts:
  assumes st: "store ob = Some s" "s name = Some p" "Name (heap ob p) = name"
      and b: "\<not> Mutex (heap ob p)" "DownloadLimit (heap ob p) = L"
             "Downloads (heap ob p) = d" "0 \<le> d" "d < 2 ^ 63 - 1"
             "L \<le> d + 1" "\<not> (0 < L \<and> L \<le> d)"
      and intact: "checksum_err env = None"
                  "digest env (content (Bytes (heap ob p))) = Checksum (heap ob p)"
      and dec: "decrypt env (content (Bytes (heap ob p))) (form r ''password'') = Inr plain"
      and willing: "mlock_chunk (sys env) = None" "zip_create_ok (sys env)"
                   "\<forall>k. zip_err (sys env) k = None" "munlock_bytes (sys env) = None"
      and r: "Method r = ''POST''" "filename r = name"
  shows "\<exists>ob'. download env r ob = (Returned (), send_zip env name plain, ob') \<and>
           store ob' = Some (s(name := None)) \<and>
           Destroy (sys env) ((heap ob p)\<lparr>Downloads := d + 1\<rparr>) = (Returned None, heap ob' p) \<and>
           \<not> Mutex (heap ob' p) \<and> \<not> mlocked (Bytes (heap ob' p))"
proof -
  define b0 where "b0 = heap ob p"
  define b1 where "b1 = b0\<lparr>Downloads := d + 1\<rparr>"
  have v: "ValidateChecksum env b0 = Inr True"
    using intact by (simp add: ValidateChecksum_def b0_def)
  have i: "incr (Downloads b0) = d + 1"
    using b by (simp add: b0_def incr_def)
  have free: "\<not> Mutex b1" using b by (simp add: b1_def b0_def)
  from Destroy_willing [OF free willing]
  obtain a where a: "Destroy (sys env) b1 = (Returned None, b1\<lparr>Bytes := (Bytes b1)\<lparr>arr := a, mlocked := False\<rparr>\<rparr>)"
    by blast
  define b2 where "b2 = b1\<lparr>Bytes := (Bytes b1)\<lparr>arr := a, mlocked := False\<rparr>\<rparr>"
  have n2: "Name b2 = name" "\<not> Mutex b2" "\<not> mlocked (Bytes b2)"
    using st b by (simp_all add: b2_def b1_def b0_def)
  have f0: "DownloadLimit b0 = L" "Downloads b0 = d" using b by (simp_all add: b0_def)
  have f1: "DownloadLimit b1 = L" "Downloads b1 = d + 1" using b by (simp_all add: b1_def b0_def)
  have nl: "(0 < L \<and> L \<le> d) = False" "L \<le> d + 1" using b by simp_all
  have "download env r ob =
      (Returned (), send_zip env name plain,
       ob\<lparr>heap := (heap ob)(p := b2), store := Some (s(name := None))\<rparr>)"
    using st(1,2) nl r v i a n2 f0 f1 dec
    by (auto simp add: download_def download_post_def store_Get_def store_Destroy_def Let_def
          b0_def [symmetric] b1_def [symmetric] b2_def [symmetric])
  moreover have "Destroy (sys env) ((heap ob p)\<lparr>Downloads := d + 1\<rparr>) = (Returned None, b2)"
    using a by (simp add: b0_def b1_def b2_def)
  ultimately show ?thesis using n2 by simp
qed





subsection \<open>download: no limit\<close>

text \<open>
  On the GET path a buffer without a limit is handed to \<open>Destroy\<close> by every
  download that passes the checksum: what the handler leaves at the buffer's address is
  what \<open>Destroy\<close> made of the buffer with its count raised.
\<close>

lemma get_unlimited_runs_Destroy:
  assumes o: "offered name p s 0 d c chk ob"
      and chk: "digest env c = chk" "checksum_err env = None"
      and d: "0 \<le> d" "d < 2 ^ 63 - 1"
      and r: "Method r = ''GET''" "filename r = name"
  shows "heap (after (download env r ob)) p
           = snd (Destroy (sys env) ((heap ob p)\<lparr>Downloads := d + 1\<rparr>))"
proof -
  define b where "b = heap ob p"
  from o have st: "store ob = Some s" "s name = Some p"
    and b: "\<not> Encrypted b" "DownloadLimit b = 0" "Downloads b = d"
           "content (Bytes b) = c" "Checksum b = chk"
    by (simp_all add: offered_def b_def)
  have v: "ValidateChecksum env b = Inr True"
    using b chk by (simp add: ValidateChecksum_def)
  have i: "incr (Downloads b) = d + 1"
    using d b by (simp add: incr_def)
  obtain res b2 where D: "Destroy (sys env) (b\<lparr>Downloads := d + 1\<rparr>) = (res, b2)"
    by (cases "Destroy (sys env) (b\<lparr>Downloads := d + 1\<rparr>)")
  have "heap (after (download env r ob)) p = b2"
    using st b d r v i D
    by (cases res)
       (simp_all add: download_def download_get_def store_Get_def Let_def after_def
          b_def [symmetric])
  with D show ?thesis by (simp add: b_def)
qed

text \<open>
  On the POST path a buffer without a limit is destroyed and removed from the store by
  every download that passes the checksum and the decryption, however many went before.
\<close>

lemma post_unlimited_evicts:
  assumes st: "store ob = Some s" "s name = Some p" "Name (heap ob p) = name"
      and b: "\<not> Mutex (heap ob p)" "DownloadLimit (heap ob p) = 0"
             "Downloads (heap ob p) = d" "0 \<le> d" "d < 2 ^ 63 - 1"
      and intact: "checksum_err env = None"
                  "digest env (content (Bytes (heap ob p))) = Checksum (heap ob p)"
      and dec: "decrypt env (content (Bytes (heap ob p))) (form r ''password'') = Inr plain"
      and willing: "mlock_chunk (sys env) = None" "zip_create_ok (sys env)"
                   "\<forall>k. zip_err (sys env) k = None" "munlock_bytes (sys env) = None"
      and r: "Method r = ''POST''" "filename r = name"
  shows "\<exists>ob'. download env r ob = (Returned (), send_zip env name plain, ob') \<and>
           store ob' = Some (s(name := None))"
proof -
  have "(0::int) \<le> d + 1" "\<not> ((0::int) < 0 \<and> 0 \<le> d)" using b by simp_all
  from post_reaching_limit_evicts [OF st b this intact dec willing r]
  show ?thesis by blast
qed

text \<open>
  Claim C3 says that with \<open>DownloadLimit = 0\<close> downloads are unlimited and no
  successful download destroys or evicts the buffer. The test before the download asks for
  \<open>DownloadLimit > 0\<close>, the test after the increment does not: with limit 0 it
  holds after the first download. A store holds a passphrase-protected buffer without a
  limit: the first POST with the passphrase is served the archive and the buffer is gone
  from the store (\<open>ob.store.Destroy\<close>). A store holds a pinned buffer without a
  limit and without a passphrase: the first GET is served the archive and leaves at the
  buffer's address what \<open>Destroy\<close> makes of it, the pin dropped.
\<close>

theorem unlimited_download_evicts:
  "map_option DownloadLimit (entry (stocked_box secret_buffer) ''sillyname'') = Some 0 \<and>
   fst (router sample_env post_sillyname (stocked_box secret_buffer)) = Returned () \<and>
   fst (snd (router sample_env post_sillyname (stocked_box secret_buffer))) =
     [SetHeader ''Content-Type'' ''application/zip'',
      SetHeader ''Content-Disposition'' ''attachment; filename=sillyname.zip'',
      Write [80, 75, 3, 4]] \<and>
   entry (after (router sample_env post_sillyname (stocked_box secret_buffer))) ''sillyname''
     = None \<and>
   map_option DownloadLimit (entry (stocked_box unlimited_buffer) ''sillyname'') = Some 0 \<and>
   map_option (mlocked \<circ> Bytes) (entry (stocked_box unlimited_buffer) ''sillyname'')
     = Some True \<and>
   fst (snd (router sample_env get_sillyname (stocked_box unlimited_buffer))) =
     [SetHeader ''Content-Type'' ''application/zip'',
      SetHeader ''Content-Disposition'' ''attachment; filename=sillyname.zip'',
      Write [80, 75, 3, 4]] \<and>
   entry (after (router sample_env get_sillyname (stocked_box unlimited_buffer))) ''sillyname''
     = Some (snd (Destroy calm (unlimited_buffer\<lparr>Downloads := 1\<rparr>))) \<and>
   map_option (mlocked \<circ> Bytes)
     (entry (after (router sample_env get_sillyname (stocked_box unlimited_buffer))) ''sillyname'')
     = Some False"
  by code_simp

subsection \<open>upload: the pin\<close>

text \<open>
  An upload whose form parses, with at most 100 files, all of which the worker writes,
  ends the process.
\<close>

lemma upload_ends_process:
  assumes "Method r = ''POST''" "parse_form env = None" "length (files r) \<le> 100"
          "zip_files env (files r) = Inr z"
  shows "fst (upload env r ob) = Crashed"
  using assms by (simp add: upload_def split: prod.splits)

text \<open>
  The end of the upload handler, from \<open>ob.store.Add\<close> on, with a store that has
  no entry of the buffer's name and a system in which the steps of \<open>Destroy\<close>
  succeed: the buffer is in the store afterwards, its content as it was, its pin dropped.
\<close>

lemma upload_store_unpins:
  assumes st: "store ob = Some s" "s (Name b) = None"
      and free: "\<not> Mutex b"
      and willing: "mlock_chunk (sys env) = None" "zip_create_ok (sys env)"
                   "\<forall>k. zip_err (sys env) k = None" "munlock_bytes (sys env) = None"
  shows "\<exists>b'. entry (after (upload_store env b ob)) (Name b) = Some b' \<and>
           content (Bytes b') = content (Bytes b) \<and> \<not> mlocked (Bytes b')"
proof -
  from Destroy_willing [OF free willing]
  obtain a where a: "Destroy (sys env) b = (Returned None, b\<lparr>Bytes := (Bytes b)\<lparr>arr := a, mlocked := False\<rparr>\<rparr>)"
    and t: "take (len (Bytes b)) a = take (len (Bytes b)) (arr (Bytes b))" by blast
  define b2 where "b2 = b\<lparr>Bytes := (Bytes b)\<lparr>arr := a, mlocked := False\<rparr>\<rparr>"
  have "entry (after (upload_store env b ob)) (Name b) = Some b2"
    using st a
    by (simp add: upload_store_def store_Add_def Let_def after_def entry_def
          b2_def [symmetric])
  moreover have "content (Bytes b2) = content (Bytes b)" "\<not> mlocked (Bytes b2)"
    using t by (simp_all add: b2_def content_def)
  ultimately show ?thesis by blast
qed

text \<open>
  Claim C4 says that the memory behind a buffer's content stays pinned from the moment
  the bytes are assigned until \<open>Destroy\<close> releases it, once, and never while the
  buffer is reachable through the store. \<open>upload\<close> pins the bytes when it assigns
  them: for the file of the sample upload its content block yields the pinned
  \<open>unlimited_buffer\<close>. Its last block (\<open>upload_store\<close>) adds the buffer to the
  store and then calls \<open>Destroy\<close> on that same pointer, whose \<open>Munlock\<close>
  drops the pin: the stored buffer holds its content unpinned. The GET path of
  \<open>download\<close> does the same to a stored, pinned buffer when the count meets the
  limit: \<open>oBuffer.Destroy()\<close> without removal, so the buffer stays in the store
  unpinned.
\<close>

theorem upload_unpins_stored_buffer:
  "upload_content sample_env plain_upload
      \<lparr>arr = [80, 75, 3, 4, 0, 0], len = 4, mlocked = False\<rparr> (new_OnionBuffer ''sillyname'')
     = Inr unlimited_buffer \<and>
   mlocked (Bytes unlimited_buffer) \<and>
   fst (upload_store sample_env unlimited_buffer sample_box) = Returned () \<and>
   map_option (content \<circ> Bytes)
     (entry (after (upload_store sample_env unlimited_buffer sample_box)) ''sillyname'')
     = Some [80, 75, 3, 4] \<and>
   map_option (mlocked \<circ> Bytes)
     (entry (after (upload_store sample_env unlimited_buffer sample_box)) ''sillyname'')
     = Some False \<and>
   map_option (mlocked \<circ> Bytes) (entry (stocked_box single_buffer) ''sillyname'') = Some True \<and>
   fst (router sample_env get_sillyname (stocked_box single_buffer)) = Returned () \<and>
   map_option (content \<circ> Bytes)
     (entry (after (router sample_env get_sillyname (stocked_box single_buffer))) ''sillyname'')
     = Some [80, 75, 3, 4] \<and>
   map_option (mlocked \<circ> Bytes)
     (entry (after (router sample_env get_sillyname (stocked_box single_buffer))) ''sillyname'')
     = Some False"
  by code_simp

subsection \<open>The upload queue\<close>

lemma start_inv: "pipe_inv fs (start fs)"
  by (simp add: pipe_inv_def start_def)

lemma handler_step_inv:
  assumes "pipe_inv fs s"
  shows "pipe_inv fs (handler_step s)"
proof (cases "handler s")
  case (Filling rest)
  with assms show ?thesis
    by (cases rest) (auto simp: pipe_inv_def handler_step_def)
next
  case Waiting
  with assms show ?thesis
    by (auto simp: pipe_inv_def handler_step_def)
next
  case Closing
  with assms show ?thesis
    by (auto simp: pipe_inv_def handler_step_def)
next
  case Finished
  with assms show ?thesis
    by (auto simp: pipe_inv_def handler_step_def)
qed

lemma worker_step_inv:
  assumes "pipe_inv fs s"
  shows "pipe_inv fs (worker_step ok s)"
proof (cases "worker s")
  case Selecting
  with assms show ?thesis
    by (cases "queue s"; cases "handler s") (auto simp: pipe_inv_def worker_step_def)
next
  case Checking
  with assms show ?thesis
    by (cases "handler s") (auto simp: pipe_inv_def worker_step_def)
qed (use assms in \<open>simp_all add: worker_step_def\<close>)

lemma exec_inv: "pipe_inv fs s \<Longrightarrow> pipe_inv fs (exec m s)"
  by (cases m) (simp_all add: exec_def handler_step_inv worker_step_inv)

lemma run_inv: "pipe_inv fs s \<Longrightarrow> pipe_inv fs (run ms s)"
  by (induction ms arbitrary: s) (simp_all add: exec_inv)

text \<open>
  Once the worker has signalled, its next two turns end the process under every
  schedule: at its \<open>select\<close> it finds the queue closed and panics on the nil file
  header, or finds it open and empty and calls \<open>wg.Done()\<close> on a counter that is
  no longer positive.
\<close>

lemma worker_Dead_crashed: "worker (run ms (start fs)) = Dead \<Longrightarrow> crashed (run ms (start fs))"
proof -
  have step: "worker (exec m s) = Dead \<longrightarrow> crashed (exec m s)"
    if "worker s = Dead \<longrightarrow> crashed s" for m s
  proof (cases "crashed s")
    case True
    then show ?thesis by (simp add: exec_def)
  next
    case False
    with that have alive: "worker s \<noteq> Dead" by blast
    show ?thesis
    proof (cases m)
      case Handler
      with False alive show ?thesis
        by (auto simp: exec_def handler_step_def split: handler_pc.splits list.splits)
    next
      case (Worker ok)
      with False alive show ?thesis
        by (auto simp: exec_def worker_step_def split: worker_pc.splits list.splits)
    qed
  qed
  have "worker s = Dead \<longrightarrow> crashed s \<Longrightarrow> worker (run ms s) = Dead \<longrightarrow> crashed (run ms s)" for s
    by (induction ms arbitrary: s) (simp_all add: step)
  from this [of "start fs"] show "worker (run ms (start fs)) = Dead \<Longrightarrow> crashed (run ms (start fs))"
    by (simp add: start_def)
qed

lemma run_append: "run (ms @ ns) s = run ns (run ms s)"
  by (induction ms arbitrary: s) simp_all

lemma signal_then_crash:
  assumes "0 < dones (run ms (start fs))"
  shows "crashed (run (ms @ [Worker a, Worker b]) (start fs))"
proof -
  define s where "s = run ms (start fs)"
  have inv: "pipe_inv fs s"
    unfolding s_def by (rule run_inv [OF start_inv])
  have dead: "worker s = Dead \<Longrightarrow> crashed s"
    unfolding s_def by (rule worker_Dead_crashed)
  from inv assms have f: "queue s = []" "worker s \<noteq> Failed" "worker s \<noteq> Unborn" "wg s \<le> 0"
    by (auto simp: pipe_inv_def s_def [symmetric] split: if_splits)
  have "crashed (exec (Worker b) (exec (Worker a) s))"
  proof (cases "crashed s")
    case True
    then show ?thesis by (simp add: exec_def)
  next
    case False
    show ?thesis
    proof (cases "worker s")
      case Selecting
      with False f show ?thesis
        by (cases "closed s") (simp_all add: exec_def worker_step_def)
    next
      case Checking
      with False f show ?thesis
        by (simp add: exec_def worker_step_def)
    next
      case Dead
      with False dead show ?thesis by simp
    qed (use f in simp_all)
  qed
  then show ?thesis by (simp add: run_append s_def)
qed

text \<open>
  Claim C8 says that the worker signals completion exactly once, only after the handler
  has closed the queue and every file is written, and on an explicit closed-and-drained
  signal rather than on seeing the queue empty. Counterexample to the claim as stated,
  with one file queued: after the handler's two steps and three steps of the worker,
  \<open>wg.Done()\<close> has been called and the queue is not closed; two more steps of the
  worker call \<open>wg.Done()\<close> a second time, and the process panics on the negative
  counter.
\<close>

theorem worker_signals_early_counterexample:
  "dones (run [Handler, Handler, Worker True, Worker True, Worker True]
            (start (files plain_upload))) = 1 \<and>
   \<not> closed (run [Handler, Handler, Worker True, Worker True, Worker True]
               (start (files plain_upload))) \<and>
   dones (run [Handler, Handler, Worker True, Worker True, Worker True, Worker True, Worker True]
            (start (files plain_upload))) = 2 \<and>
   crashed (run [Handler, Handler, Worker True, Worker True, Worker True, Worker True, Worker True]
              (start (files plain_upload)))"
  by code_simp

text \<open>
  Claim C8 as amended: the worker signals completion (\<open>wg.Done()\<close>) when it finds
  the queue empty (\<open>len(uploadQueue) == 0\<close> in the \<open>default\<close> branch of its
  \<open>select\<close>). Under every schedule, once it has signalled, the queue is empty and
  every file of the form has been written to the archive, in order; and the handler closes
  the queue only after that signal, never before it.
\<close>

theorem worker_signals_on_empty_queue:
  "(0 < dones (run ms (start fs)) \<longrightarrow>
      queue (run ms (start fs)) = [] \<and> archive (run ms (start fs)) = fs) \<and>
   (closed (run ms (start fs)) \<longrightarrow> 0 < dones (run ms (start fs)))"
proof -
  have "pipe_inv fs (run ms (start fs))"
    by (rule run_inv [OF start_inv])
  then show ?thesis
    by (cases "handler (run ms (start fs))") (auto simp: pipe_inv_def)
qed

theorem worker_signals_on_empty_queue_witness:
  "0 < dones (run [Handler, Handler, Worker True, Worker True, Worker True, Handler, Handler]
                (start (files plain_upload))) \<and>
   closed (run [Handler, Handler, Worker True, Worker True, Worker True, Handler, Handler]
             (start (files plain_upload))) \<and>
   queue (run [Handler, Handler, Worker True, Worker True, Worker True, Handler, Handler]
            (start (files plain_upload))) = [] \<and>
   archive (run [Handler, Handler, Worker True, Worker True, Worker True, Handler, Handler]
              (start (files plain_upload))) = files plain_upload"
proof -
  define s where
    "s = run [Handler, Handler, Worker True, Worker True, Worker True, Handler, Handler]
           (start (files plain_upload))"
  have h: "closed s"
    unfolding s_def by code_simp
  have "(0 < dones s \<longrightarrow> queue s = [] \<and> archive s = files plain_upload) \<and>
        (closed s \<longrightarrow> 0 < dones s)"
    unfolding s_def by (rule worker_signals_on_empty_queue)
  with h have "0 < dones s \<and> closed s \<and> queue s = [] \<and> archive s = files plain_upload"
    by simp
  then show ?thesis
    unfolding s_def .
qed

end
